theory Spec2Isabelle
  imports Main "HOL-Library.Word"
begin

unbundle bit_operations_syntax

section \<open>Data model of the gamepad decoder\<close>

text \<open>
  The class \<open>Gamepad\<close> decodes raw HID frames into named events. A frame is a Node
  \<open>Buffer\<close>: a sequence of bytes. Reading \<open>data[pin]\<close> outside the buffer yields
  JavaScript's \<open>undefined\<close>, which is \<open>None\<close> here.
\<close>

type_synonym byte = "8 word"
type_synonym frame = "byte list"

definition rd :: "frame \<Rightarrow> int \<Rightarrow> byte option" where
  "rd data pin = (if 0 \<le> pin \<and> pin < int (length data) then Some (data ! nat pin) else None)"

text \<open>\<open>data[pin] & 0xFF\<close>: the operand is converted to a 32-bit integer first, and
  \<open>undefined\<close> converts to 0.\<close>

definition and_0xFF :: "byte option \<Rightarrow> int" where
  "and_0xFF v = (case v of None \<Rightarrow> 0 | Some b \<Rightarrow> uint (b AND 0xFF))"

text \<open>
  The values a read of \<open>_states\<close> can give. The class stores
  \<open>IStickState | boolean | string\<close> and \<open>undefined\<close> (a status whose scan matched
  nothing). The object is the literal \<open>{}\<close>, so a read also reaches its prototype:
  a function inherited from \<open>Object.prototype\<close>, that prototype itself (through
  \<open>__proto__\<close>), or a number (the \<open>x\<close> or \<open>y\<close> of a stick state that has
  become the prototype).
\<close>

datatype jsval =
    JUndefined
  | JBool bool
  | JNum byte
  | JString string
  | JStick "byte option" "byte option"
  | JFunction string
  | JObjectPrototype

fun truthy :: "jsval \<Rightarrow> bool" where
  "truthy JUndefined = False"
| "truthy (JBool b) = b"
| "truthy (JNum n) = (n \<noteq> 0)"
| "truthy (JString s) = (s \<noteq> [])"
| "truthy (JStick vx vy) = True"
| "truthy (JFunction f) = True"
| "truthy JObjectPrototype = True"

text \<open>Property access \<open>v.x\<close> and \<open>v.y\<close> on a value that is not \<open>undefined\<close>: a
  boolean, a number, a string, a function and \<open>Object.prototype\<close> have no such
  property.\<close>

fun prop_x :: "jsval \<Rightarrow> byte option" where
  "prop_x (JStick vx vy) = vx"
| "prop_x v = None"

fun prop_y :: "jsval \<Rightarrow> byte option" where
  "prop_y (JStick vx vy) = vy"
| "prop_y v = None"

text \<open>The value of \<open>data[pin]\<close> as a JavaScript value.\<close>

definition of_read :: "byte option \<Rightarrow> jsval" where
  "of_read v = (case v of None \<Rightarrow> JUndefined | Some b \<Rightarrow> JNum b)"

record stick_config =
  stick_name :: string
  x_pin :: int
  y_pin :: int

record button_config =
  button_value :: int
  button_pin :: int
  button_name :: string

record status_state =
  ss_value :: int
  ss_state :: string

record status_config =
  status_pin :: int
  status_name :: string
  status_states :: "status_state list"

record gamepad_definition =
  vendorID :: int
  productID :: int
  joysticks :: "stick_config list option"
  buttons :: "button_config list option"
  status :: "status_config list option"

record gamepad_options =
  opt_vendorID :: "int option"
  opt_productID :: "int option"

text \<open>An emitted event: the name given to \<open>emit\<close> and the arguments after it.\<close>

datatype event = Event (ev_name: string) (ev_args: "jsval list")

text \<open>
  The state object \<open>_states\<close> starts as \<open>{}\<close>: it has own properties, written by
  assignment, and a prototype, at first \<open>Object.prototype\<close>. The prototype matters
  for the names it defines: the functions below, and the accessor \<open>__proto__\<close>, whose
  getter returns the prototype of the object and whose setter replaces it when it is
  given an object and ignores every other value. The only objects this class assigns
  are stick states, so the prototype is \<open>Object.prototype\<close> or a stick state (whose
  own prototype is \<open>Object.prototype\<close>).
\<close>

definition object_prototype_functions :: "string list" where
  "object_prototype_functions =
     [''constructor'', ''__defineGetter__'', ''__defineSetter__'', ''hasOwnProperty'',
      ''__lookupGetter__'', ''__lookupSetter__'', ''isPrototypeOf'', ''propertyIsEnumerable'',
      ''toString'', ''valueOf'', ''toLocaleString'']"

definition inherited_names :: "string list" where
  "inherited_names = ''__proto__'' # object_prototype_functions"

datatype proto = ObjectPrototype | StickPrototype "byte option" "byte option"

text \<open>
  The record below is the object once \<open>loadConfiguration\<close> has run:
  \<open>onControllerFrame\<close> is registered only after that, so \<open>_config\<close> is never
  \<open>null\<close> when a frame is decoded. \<open>states\<close> holds the own properties of
  \<open>_states\<close> and \<open>states_proto\<close> its prototype. The log \<open>emitted\<close> collects
  the calls of \<open>emit\<close> in order; listeners are not modelled.
\<close>

record gamepad =
  usb :: "(int \<times> int) option"
  gtype :: string
  config :: gamepad_definition
  states :: "string \<rightharpoonup> jsval"
  states_proto :: proto
  options :: gamepad_options
  emitted :: "event list"

text \<open>A name looked up on \<open>Object.prototype\<close>, for an object whose prototype is \<open>p\<close>.\<close>

definition from_object_prototype :: "proto \<Rightarrow> string \<Rightarrow> jsval" where
  "from_object_prototype p k =
     (if k = ''__proto__'' then
        (case p of ObjectPrototype \<Rightarrow> JObjectPrototype | StickPrototype vx vy \<Rightarrow> JStick vx vy)
      else if k \<in> set object_prototype_functions then JFunction k
      else JUndefined)"

text \<open>A name that is not an own property: the prototype chain is searched.\<close>

definition inherited :: "proto \<Rightarrow> string \<Rightarrow> jsval" where
  "inherited p k =
     (case p of
        ObjectPrototype \<Rightarrow> from_object_prototype p k
      | StickPrototype vx vy \<Rightarrow>
          if k = ''x'' then of_read vx
          else if k = ''y'' then of_read vy
          else from_object_prototype p k)"

text \<open>The read \<open>this._states[k]\<close>.\<close>

definition lookup :: "gamepad \<Rightarrow> string \<Rightarrow> jsval" where
  "lookup g k = (case states g k of Some v \<Rightarrow> v | None \<Rightarrow> inherited (states_proto g) k)"

definition emit :: "string \<Rightarrow> jsval list \<Rightarrow> gamepad \<Rightarrow> gamepad" where
  "emit n args g = g\<lparr>emitted := emitted g @ [Event n args]\<rparr>"

text \<open>
  The assignment \<open>this._states[k] = v\<close>. An own property of that name is
  overwritten. Otherwise, for \<open>__proto__\<close>, the assignment reaches the inherited
  setter: a stick state becomes the prototype, a boolean, a number, a string or
  \<open>undefined\<close> is discarded (a function is never assigned by this class). Every other
  name becomes an own property: the inherited properties of those names are writable
  data properties. The object starts empty, so no assignment ever gives it an own
  property \<open>__proto__\<close>.
\<close>

definition set_state :: "string \<Rightarrow> jsval \<Rightarrow> gamepad \<Rightarrow> gamepad" where
  "set_state k v g =
     (if k = ''__proto__'' \<and> states g k = None then
        (case v of
           JStick vx vy \<Rightarrow> g\<lparr>states_proto := StickPrototype vx vy\<rparr>
         | JObjectPrototype \<Rightarrow> g\<lparr>states_proto := ObjectPrototype\<rparr>
         | _ \<Rightarrow> g)
      else g\<lparr>states := (states g)(k \<mapsto> v)\<rparr>)"

section \<open>Frame decoder\<close>

text \<open>The optional field lists of a definition: a list that is absent has no fields.\<close>

definition field_list :: "'a list option \<Rightarrow> 'a list" where
  "field_list l = (case l of None \<Rightarrow> [] | Some xs \<Rightarrow> xs)"

definition field_names :: "gamepad_definition \<Rightarrow> string list" where
  "field_names cfg =
     map stick_name (field_list (joysticks cfg)) @
     map button_name (field_list (buttons cfg)) @
     map status_name (field_list (status cfg))"

subsection \<open>Sticks\<close>

definition stick_step :: "frame \<Rightarrow> stick_config \<Rightarrow> gamepad \<Rightarrow> gamepad" where
  "stick_step data stick g =
     (if \<not> truthy (lookup g (stick_name stick)) then
        set_state (stick_name stick) (JStick (rd data (x_pin stick)) (rd data (y_pin stick))) g
      else
        let currentState = lookup g (stick_name stick) in
        if prop_x currentState \<noteq> rd data (x_pin stick) \<or> prop_y currentState \<noteq> rd data (y_pin stick)
        then
          let currentState' = JStick (rd data (x_pin stick)) (rd data (y_pin stick)) in
          emit (stick_name stick @ '':move'') [currentState']
            (set_state (stick_name stick) currentState' g)
        else g)"

text \<open>The guard \<open>if (!this._config.joysticks) return\<close>, then \<open>forEach\<close>.\<close>

definition processJoysticks :: "frame \<Rightarrow> gamepad \<Rightarrow> gamepad" where
  "processJoysticks data g =
     (case joysticks (config g) of
        None \<Rightarrow> g
      | Some sticks \<Rightarrow> fold (stick_step data) sticks g)"

subsection \<open>Buttons\<close>

definition button_step :: "frame \<Rightarrow> button_config \<Rightarrow> gamepad \<Rightarrow> gamepad" where
  "button_step data button g =
     (let isPressed = (and_0xFF (rd data (button_pin button)) = button_value button) in
      if lookup g (button_name button) = JUndefined then
        let g' = set_state (button_name button) (JBool isPressed) g in
        if isPressed then emit (button_name button @ '':press'') [] g' else g'
      else
        let currentState = lookup g (button_name button);
            g' = (if isPressed \<and> currentState \<noteq> JBool isPressed then
                    emit (button_name button @ '':press'') [] g
                  else if \<not> isPressed \<and> currentState \<noteq> JBool isPressed then
                    emit (button_name button @ '':release'') [] g
                  else g)
        in set_state (button_name button) (JBool isPressed) g')"

definition processButtons :: "frame \<Rightarrow> gamepad \<Rightarrow> gamepad" where
  "processButtons data g =
     (case buttons (config g) of
        None \<Rightarrow> g
      | Some bs \<Rightarrow> fold (button_step data) bs g)"

subsection \<open>Statuses\<close>

text \<open>The scan \<open>for (i = 0; i < length; i++)\<close> with its \<open>break\<close>; \<open>updatedState\<close>
  is declared inside the callback, so it starts as \<open>undefined\<close> for every status.\<close>

fun scan_states :: "status_state list \<Rightarrow> int \<Rightarrow> jsval" where
  "scan_states [] state = JUndefined"
| "scan_states (s # ss) state =
     (if ss_value s = state then JString (ss_state s) else scan_states ss state)"

definition status_step :: "frame \<Rightarrow> status_config \<Rightarrow> gamepad \<Rightarrow> gamepad" where
  "status_step data st g =
     (let state = and_0xFF (rd data (status_pin st));
          updatedState = scan_states (status_states st) state;
          currentState = lookup g (status_name st);
          g' = (if currentState \<noteq> updatedState then
                  emit (status_name st @ '':change'') [updatedState] g
                else g)
      in set_state (status_name st) updatedState g')"

definition processStatus :: "frame \<Rightarrow> gamepad \<Rightarrow> gamepad" where
  "processStatus data g =
     (case status (config g) of
        None \<Rightarrow> g
      | Some sts \<Rightarrow> fold (status_step data) sts g)"

definition onControllerFrame :: "frame \<Rightarrow> gamepad \<Rightarrow> gamepad" where
  "onControllerFrame data g = processStatus data (processButtons data (processJoysticks data g))"

text \<open>The events a step or a pass added to the log.\<close>

definition new_events :: "gamepad \<Rightarrow> gamepad \<Rightarrow> event list" where
  "new_events g g' = drop (length (emitted g)) (emitted g')"

definition named :: "string \<Rightarrow> event list \<Rightarrow> event list" where
  "named n evs = filter (\<lambda>e. ev_name e = n) evs"

subsection \<open>What one field does, as a function of what it read\<close>

text \<open>
  These functions are not part of the source. They describe the step of one field by
  what a read of its name gives afterwards and by the events it emits, given what the
  read gave before; the lemmas below prove that the steps above compute exactly these
  (the entry after the step, for a field that is not named \<open>__proto__\<close>).
\<close>

definition stick_new :: "frame \<Rightarrow> stick_config \<Rightarrow> jsval" where
  "stick_new d s = JStick (rd d (x_pin s)) (rd d (y_pin s))"

definition stick_moved :: "frame \<Rightarrow> stick_config \<Rightarrow> jsval \<Rightarrow> bool" where
  "stick_moved d s v =
     (truthy v \<and> (prop_x v \<noteq> rd d (x_pin s) \<or> prop_y v \<noteq> rd d (y_pin s)))"


definition stick_events :: "frame \<Rightarrow> stick_config \<Rightarrow> jsval \<Rightarrow> event list" where
  "stick_events d s v =
     (if stick_moved d s v then [Event (stick_name s @ '':move'') [stick_new d s]] else [])"

definition button_pressed :: "frame \<Rightarrow> button_config \<Rightarrow> bool" where
  "button_pressed d b = (and_0xFF (rd d (button_pin b)) = button_value b)"


definition button_events :: "frame \<Rightarrow> button_config \<Rightarrow> jsval \<Rightarrow> event list" where
  "button_events d b v =
     (if v = JUndefined then
        (if button_pressed d b then [Event (button_name b @ '':press'') []] else [])
      else if button_pressed d b \<and> v \<noteq> JBool True then
        [Event (button_name b @ '':press'') []]
      else if \<not> button_pressed d b \<and> v \<noteq> JBool False then
        [Event (button_name b @ '':release'') []]
      else [])"

definition status_label :: "frame \<Rightarrow> status_config \<Rightarrow> jsval" where
  "status_label d st = scan_states (status_states st) (and_0xFF (rd d (status_pin st)))"


definition status_events :: "frame \<Rightarrow> status_config \<Rightarrow> jsval \<Rightarrow> event list" where
  "status_events d st v =
     (if v \<noteq> status_label d st
      then [Event (status_name st @ '':change'') [status_label d st]] else [])"

text \<open>The events of a pass, each field deciding from what it read before the pass.\<close>

definition stick_pass_events :: "frame \<Rightarrow> gamepad \<Rightarrow> event list" where
  "stick_pass_events d g =
     concat (map (\<lambda>s. stick_events d s (lookup g (stick_name s))) (field_list (joysticks (config g))))"

definition button_pass_events :: "frame \<Rightarrow> gamepad \<Rightarrow> event list" where
  "button_pass_events d g =
     concat (map (\<lambda>b. button_events d b (lookup g (button_name b))) (field_list (buttons (config g))))"

definition status_pass_events :: "frame \<Rightarrow> gamepad \<Rightarrow> event list" where
  "status_pass_events d g =
     concat (map (\<lambda>st. status_events d st (lookup g (status_name st))) (field_list (status (config g))))"

text \<open>A sequence of frames, delivered one at a time.\<close>

definition run_frames :: "frame list \<Rightarrow> gamepad \<Rightarrow> gamepad" where
  "run_frames ds g = fold onControllerFrame ds g"



section \<open>Configuration resolution and loading\<close>

datatype error =
    ConfigurationNotFound  \<comment> \<open>\<open>The vendor "..." does not exist\<close>\<close>
  | DeviceNotDetected      \<comment> \<open>\<open>A product for the vendor "..." could not be detected\<close>\<close>
  | DefinitionNotFound     \<comment> \<open>\<open>The controller configuration for "..." does not exist\<close>\<close>

record hid_device =
  vendorId :: int
  productId :: int

text \<open>
  The directory \<open>../controllers\<close>: \<open>ctl_dirs\<close> gives, for a vendor directory that
  exists, its entries in the order of \<open>readdirSync\<close>, each with the definition that
  \<open>require\<close> loads from it (every entry is taken to be a loadable definition);
  \<open>ctl_files\<close> gives the definition that \<open>require\<close> returns for
  \<open>../controllers/<type>.json\<close>, when that file exists. Both stand for the files
  and the module cache at the time of the call: \<open>loadConfiguration\<close> writes its
  overrides into the object \<open>require\<close> returned, which a later load in the same
  process would see; one load is modelled here, not a sequence of them.
\<close>

record controllers =
  ctl_dirs :: "string \<rightharpoonup> (string \<times> gamepad_definition) list"
  ctl_files :: "string \<rightharpoonup> gamepad_definition"

definition hasProductId :: "string \<Rightarrow> bool" where
  "hasProductId t = (CHR ''/'' \<in> set t)"

text \<open>\<open>file.replace(".json", "")\<close> replaces the first occurrence only.\<close>

fun replace_first :: "string \<Rightarrow> string \<Rightarrow> string \<Rightarrow> string" where
  "replace_first pat rep [] = (if pat = [] then rep else [])"
| "replace_first pat rep (c # cs) =
     (if take (length pat) (c # cs) = pat then rep @ drop (length pat) (c # cs)
      else c # replace_first pat rep cs)"

fun device_matches :: "gamepad_definition \<Rightarrow> hid_device list \<Rightarrow> bool" where
  "device_matches tmpConfig [] = False"
| "device_matches tmpConfig (tmpDevice # devices) =
     (if vendorID tmpConfig = vendorId tmpDevice \<and> productID tmpConfig = productId tmpDevice
      then True else device_matches tmpConfig devices)"

fun scan_files :: "string \<Rightarrow> (string \<times> gamepad_definition) list \<Rightarrow> hid_device list \<Rightarrow> string option" where
  "scan_files t [] devices = None"
| "scan_files t ((file, tmpConfig) # files) devices =
     (if device_matches tmpConfig devices
      then Some (t @ ''/'' @ replace_first ''.json'' '''' file)
      else scan_files t files devices)"

text \<open>The result is the returned boolean together with the new value of \<open>_type\<close>.\<close>

definition detectControllerConfiguration ::
  "controllers \<Rightarrow> hid_device list \<Rightarrow> string \<Rightarrow> error + (bool \<times> string)" where
  "detectControllerConfiguration ctl devices t =
     (if hasProductId t then Inr (True, t)
      else case ctl_dirs ctl t of
        None \<Rightarrow> Inl ConfigurationNotFound
      | Some files \<Rightarrow>
          (case scan_files t files devices of
             Some t' \<Rightarrow> Inr (True, t')
           | None \<Rightarrow> Inr (False, t)))"

definition loadConfiguration ::
  "controllers \<Rightarrow> string \<Rightarrow> gamepad_options \<Rightarrow> error + gamepad_definition" where
  "loadConfiguration ctl t opts =
     (case ctl_files ctl t of
        None \<Rightarrow> Inl DefinitionNotFound
      | Some stored \<Rightarrow>
          let c1 = (case opt_vendorID opts of
                      None \<Rightarrow> stored
                    | Some v \<Rightarrow> if v \<noteq> 0 then stored\<lparr>vendorID := v\<rparr> else stored);
              c2 = (case opt_productID opts of
                      None \<Rightarrow> c1
                    | Some p \<Rightarrow> if p \<noteq> 0 then c1\<lparr>productID := p\<rparr> else c1)
          in Inr c2)"

definition connect ::
  "controllers \<Rightarrow> hid_device list \<Rightarrow> string \<Rightarrow> gamepad_options \<Rightarrow> error + gamepad" where
  "connect ctl devices t opts =
     (case detectControllerConfiguration ctl devices t of
        Inl e \<Rightarrow> Inl e
      | Inr (found, t') \<Rightarrow>
          if \<not> found then Inl DeviceNotDetected
          else (case loadConfiguration ctl t' opts of
                  Inl e \<Rightarrow> Inl e
                | Inr cfg \<Rightarrow>
                    Inr \<lparr> usb = Some (vendorID cfg, productID cfg),
                          gtype = t',
                          config = cfg,
                          states = Map.empty,
                          states_proto = ObjectPrototype,
                          options = opts,
                          emitted = [Event ''connecting'' [], Event ''connected'' []] \<rparr>))"

section \<open>A concrete device\<close>

text \<open>
  The scenarios of the specification: stick \<open>left\<close> at pins 2 and 3, button
  \<open>fire\<close> at pin 4 with pressed value 1, and two statuses, one of them with an
  empty table.
\<close>

definition ex_left :: stick_config where
  "ex_left = \<lparr> stick_name = ''left'', x_pin = 2, y_pin = 3 \<rparr>"

definition ex_fire :: button_config where
  "ex_fire = \<lparr> button_value = 1, button_pin = 4, button_name = ''fire'' \<rparr>"

definition ex_mode :: status_config where
  "ex_mode = \<lparr> status_pin = 5, status_name = ''mode'',
       status_states = [\<lparr> ss_value = 0, ss_state = ''off'' \<rparr>,
                        \<lparr> ss_value = 1, ss_state = ''on'' \<rparr>,
                        \<lparr> ss_value = 1, ss_state = ''other'' \<rparr>] \<rparr>"

definition ex_idle :: status_config where
  "ex_idle = \<lparr> status_pin = 6, status_name = ''idle'', status_states = [] \<rparr>"

definition ex_definition :: gamepad_definition where
  "ex_definition = \<lparr> vendorID = 1133, productID = 49693,
       joysticks = Some [ex_left], buttons = Some [ex_fire], status = Some [ex_mode, ex_idle] \<rparr>"

definition ex_gamepad :: gamepad where
  "ex_gamepad = \<lparr> usb = Some (1133, 49693), gtype = ''logitech/gamepadf310'',
       config = ex_definition, states = Map.empty, states_proto = ObjectPrototype,
       options = \<lparr> opt_vendorID = None, opt_productID = None \<rparr>, emitted = [] \<rparr>"

definition ex_frame :: "byte \<Rightarrow> byte \<Rightarrow> byte \<Rightarrow> byte \<Rightarrow> frame" where
  "ex_frame vx vy fire mode = [0, 0, vx, vy, fire, mode]"

definition ex_controllers :: controllers where
  "ex_controllers = \<lparr>
       ctl_dirs = [''logitech'' \<mapsto> [(''gamepadf310.json'', ex_definition)]],
       ctl_files = [''logitech/gamepadf310'' \<mapsto> ex_definition] \<rparr>"






section \<open>Folding a step over fields with distinct names\<close>

lemma fold_frame_lookup:
  assumes "\<And>x g. x \<in> set xs \<Longrightarrow> k \<noteq> key x \<Longrightarrow> lookup (f x g) k = lookup g k"
      and "k \<notin> key ` set xs"
  shows "lookup (fold f xs g) k = lookup g k"
  using assms by (induction xs arbitrary: g) simp_all

lemma fold_keyed_emitted:
  assumes fr: "\<And>x g k. x \<in> set xs \<Longrightarrow> k \<noteq> key x \<Longrightarrow> lookup (f x g) k = lookup g k"
      and em: "\<And>x g. emitted (f x g) = emitted g @ out x (lookup g (key x))"
      and d: "distinct (map key xs)"
  shows "emitted (fold f xs g) = emitted g @ concat (map (\<lambda>x. out x (lookup g (key x))) xs)"
  using fr d
proof (induction xs arbitrary: g)
  case Nil
  then show ?case by simp
next
  case (Cons a xs)
  have "\<And>x. x \<in> set xs \<Longrightarrow> key x \<noteq> key a"
    using Cons.prems(2) by (auto simp: image_iff)
  then have same: "\<And>x. x \<in> set xs \<Longrightarrow> lookup (f a g) (key x) = lookup g (key x)"
    by (simp add: Cons.prems(1))
  have m: "map (\<lambda>x. out x (lookup (f a g) (key x))) xs = map (\<lambda>x. out x (lookup g (key x))) xs"
    by (rule map_cong) (simp_all add: same)
  have "emitted (fold f xs (f a g)) = emitted (f a g) @ concat (map (\<lambda>x. out x (lookup (f a g) (key x))) xs)"
    by (rule Cons.IH) (use Cons.prems in simp_all)
  then show ?case unfolding m by (simp add: em)
qed


lemma fold_same_field:
  assumes "\<And>x g. x \<in> set xs \<Longrightarrow> fld (f x g) = fld g"
  shows "fld (fold f xs g) = fld g"
  using assms by (induction xs arbitrary: g) simp_all

lemma filter_concat_keyed:
  assumes "distinct (map key xs)" and "s \<in> set xs"
      and own: "\<And>x e. x \<in> set xs \<Longrightarrow> e \<in> set (h x) \<Longrightarrow> (P e \<longleftrightarrow> key x = key s)"
  shows "filter P (concat (map h xs)) = h s"
  using assms
proof (induction xs)
  case Nil
  then show ?case by simp
next
  case (Cons a xs)
  show ?case
  proof (cases "a = s")
    case True
    have all: "filter P (h s) = h s"
      using Cons.prems(3) [of s] True by (simp add: filter_id_conv)
    have neq: "\<And>x. x \<in> set xs \<Longrightarrow> key x \<noteq> key s"
      using Cons.prems(1) True by (auto simp: image_iff)
    have "\<not> P e" if "x \<in> set xs" and "e \<in> set (h x)" for x e
    proof -
      have "P e \<longleftrightarrow> key x = key s"
        using Cons.prems(3) [of x e] that by simp
      with neq [OF that(1)] show ?thesis by simp
    qed
    then have "filter P (concat (map h xs)) = []"
      by (auto simp: filter_empty_conv)
    with all True show ?thesis by simp
  next
    case False
    with Cons.prems have s: "s \<in> set xs" by simp
    have "key a \<noteq> key s"
      using Cons.prems(1) s by (auto simp: image_iff)
    then have "filter P (h a) = []"
      using Cons.prems(3) [of a] by (auto simp: filter_empty_conv)
    moreover have "filter P (concat (map h xs)) = h s"
      using Cons.IH Cons.prems s by simp
    ultimately show ?thesis by simp
  qed
qed

lemma filter_concat_none:
  assumes "\<And>x e. x \<in> set xs \<Longrightarrow> e \<in> set (h x) \<Longrightarrow> \<not> P e"
  shows "filter P (concat (map h xs)) = []"
  using assms by (auto simp: filter_empty_conv)

section \<open>Reads and writes of the state object\<close>

lemma lookup_set_state_other:
  "k \<noteq> n \<Longrightarrow> n \<noteq> ''__proto__'' \<Longrightarrow> lookup (set_state n v g) k = lookup g k"
  by (simp add: lookup_def set_state_def split: option.split)


lemma lookup_set_state_bool:
  "k \<noteq> n \<Longrightarrow> lookup (set_state n (JBool p) g) k = lookup g k"
  by (simp add: lookup_def set_state_def split: option.split)

lemma proto_set_state_bool: "states_proto (set_state n (JBool p) g) = states_proto g"
  by (simp add: set_state_def)

lemma lookup_emit: "lookup (emit n args g) k = lookup g k"
  by (simp add: lookup_def emit_def split: option.split)

lemma emitted_set_state: "emitted (set_state n v g) = emitted g"
  by (simp add: set_state_def split: jsval.split)

lemma emitted_emit: "emitted (emit n args g) = emitted g @ [Event n args]"
  by (simp add: emit_def)

lemma config_set_state: "config (set_state n v g) = config g"
  by (simp add: set_state_def split: jsval.split)

lemma config_emit: "config (emit n args g) = config g"
  by (simp add: emit_def)

lemma proto_set_state: "n \<noteq> ''__proto__'' \<Longrightarrow> states_proto (set_state n v g) = states_proto g"
  by (simp add: set_state_def)

lemma proto_emit: "states_proto (emit n args g) = states_proto g"
  by (simp add: emit_def)

lemma lookup_fresh:
  "states g k = None \<Longrightarrow> states_proto g = ObjectPrototype \<Longrightarrow> k \<notin> set inherited_names \<Longrightarrow>
   lookup g k = JUndefined"
  by (simp add: lookup_def inherited_def from_object_prototype_def inherited_names_def)


section \<open>The three steps\<close>

lemma stick_step_frame:
  "stick_name s \<noteq> ''__proto__'' \<Longrightarrow> k \<noteq> stick_name s \<Longrightarrow>
   lookup (stick_step d s g) k = lookup g k"
  by (simp add: stick_step_def Let_def lookup_emit lookup_set_state_other)


lemma stick_step_emitted:
  "emitted (stick_step d s g) = emitted g @ stick_events d s (lookup g (stick_name s))"
  by (auto simp: stick_step_def stick_events_def stick_moved_def stick_new_def Let_def
      emitted_emit emitted_set_state)

lemma stick_step_config: "config (stick_step d s g) = config g"
  by (simp add: stick_step_def Let_def config_emit config_set_state)

lemma stick_step_proto:
  "stick_name s \<noteq> ''__proto__'' \<Longrightarrow> states_proto (stick_step d s g) = states_proto g"
  by (simp add: stick_step_def Let_def proto_emit proto_set_state)

lemma button_step_frame:
  "k \<noteq> button_name b \<Longrightarrow> lookup (button_step d b g) k = lookup g k"
  by (simp add: button_step_def Let_def lookup_emit lookup_set_state_bool)


lemma button_step_emitted:
  "emitted (button_step d b g) = emitted g @ button_events d b (lookup g (button_name b))"
  by (auto simp: button_step_def button_events_def button_pressed_def Let_def
      emitted_emit emitted_set_state)

lemma button_step_config: "config (button_step d b g) = config g"
  by (simp add: button_step_def Let_def config_emit config_set_state)

lemma button_step_proto: "states_proto (button_step d b g) = states_proto g"
  by (simp add: button_step_def Let_def proto_emit proto_set_state_bool)

lemma scan_states_primitive:
  "scan_states xs v = JUndefined \<or> (\<exists>l. scan_states xs v = JString l)"
  by (induction xs) simp_all

lemma lookup_set_state_label:
  "k \<noteq> n \<Longrightarrow> lookup (set_state n (scan_states xs v) g) k = lookup g k"
  using scan_states_primitive [of xs v]
  by (auto simp: lookup_def set_state_def split: option.split)

lemma proto_set_state_label:
  "states_proto (set_state n (scan_states xs v) g) = states_proto g"
  using scan_states_primitive [of xs v] by (auto simp: set_state_def)

lemma status_step_frame:
  "k \<noteq> status_name st \<Longrightarrow> lookup (status_step d st g) k = lookup g k"
  by (simp add: status_step_def Let_def lookup_emit lookup_set_state_label)


lemma status_step_emitted:
  "emitted (status_step d st g) = emitted g @ status_events d st (lookup g (status_name st))"
  by (auto simp: status_step_def status_events_def status_label_def Let_def
      emitted_emit emitted_set_state)

lemma status_step_config: "config (status_step d st g) = config g"
  by (simp add: status_step_def Let_def config_emit config_set_state)

lemma status_step_proto: "states_proto (status_step d st g) = states_proto g"
  by (simp add: status_step_def Let_def proto_emit proto_set_state_label)

section \<open>The three passes\<close>

lemma new_events_append: "emitted g' = emitted g @ evs \<Longrightarrow> new_events g g' = evs"
  by (simp add: new_events_def)

lemma processJoysticks_fold:
  "processJoysticks d g = fold (stick_step d) (field_list (joysticks (config g))) g"
  by (simp add: processJoysticks_def field_list_def split: option.split)

lemma processButtons_fold:
  "processButtons d g = fold (button_step d) (field_list (buttons (config g))) g"
  by (simp add: processButtons_def field_list_def split: option.split)

lemma processStatus_fold:
  "processStatus d g = fold (status_step d) (field_list (status (config g))) g"
  by (simp add: processStatus_def field_list_def split: option.split)

lemma stick_in_list_not_proto:
  "''__proto__'' \<notin> set (map stick_name xs) \<Longrightarrow> x \<in> set xs \<Longrightarrow> stick_name x \<noteq> ''__proto__''"
  by (metis image_eqI list.set_map)

lemma processJoysticks_emitted:
  assumes "distinct (map stick_name (field_list (joysticks (config g))))"
      and "''__proto__'' \<notin> set (map stick_name (field_list (joysticks (config g))))"
  shows "emitted (processJoysticks d g) = emitted g @ stick_pass_events d g"
  unfolding processJoysticks_fold stick_pass_events_def
proof (rule fold_keyed_emitted)
  show "lookup (stick_step d x h) k = lookup h k"
    if "x \<in> set (field_list (joysticks (config g)))" and "k \<noteq> stick_name x" for x h k
    using stick_in_list_not_proto [OF assms(2) that(1)] that(2) by (rule stick_step_frame)
qed (simp_all add: stick_step_emitted assms(1))

lemma processButtons_emitted:
  assumes "distinct (map button_name (field_list (buttons (config g))))"
  shows "emitted (processButtons d g) = emitted g @ button_pass_events d g"
  unfolding processButtons_fold button_pass_events_def
  by (rule fold_keyed_emitted) (simp_all add: button_step_frame button_step_emitted assms)

lemma processStatus_emitted:
  assumes "distinct (map status_name (field_list (status (config g))))"
  shows "emitted (processStatus d g) = emitted g @ status_pass_events d g"
  unfolding processStatus_fold status_pass_events_def
  by (rule fold_keyed_emitted) (simp_all add: status_step_frame status_step_emitted assms)

lemma processJoysticks_frame:
  assumes "''__proto__'' \<notin> set (map stick_name (field_list (joysticks (config g))))"
      and "k \<notin> set (map stick_name (field_list (joysticks (config g))))"
  shows "lookup (processJoysticks d g) k = lookup g k"
  unfolding processJoysticks_fold
proof (rule fold_frame_lookup [where key = stick_name])
  show "lookup (stick_step d x h) k = lookup h k"
    if "x \<in> set (field_list (joysticks (config g)))" and "k \<noteq> stick_name x" for x h
    using stick_in_list_not_proto [OF assms(1) that(1)] that(2) by (rule stick_step_frame)
  show "k \<notin> stick_name ` set (field_list (joysticks (config g)))"
    using assms(2) by simp
qed

lemma processButtons_frame:
  assumes "k \<notin> set (map button_name (field_list (buttons (config g))))"
  shows "lookup (processButtons d g) k = lookup g k"
  unfolding processButtons_fold
  by (rule fold_frame_lookup [where key = button_name]) (use assms in \<open>simp_all add: button_step_frame\<close>)


lemma processJoysticks_config: "config (processJoysticks d g) = config g"
  unfolding processJoysticks_fold by (rule fold_same_field) (rule stick_step_config)

lemma processButtons_config: "config (processButtons d g) = config g"
  unfolding processButtons_fold by (rule fold_same_field) (rule button_step_config)

lemma processStatus_config: "config (processStatus d g) = config g"
  unfolding processStatus_fold by (rule fold_same_field) (rule status_step_config)

lemma processJoysticks_proto:
  assumes "''__proto__'' \<notin> set (map stick_name (field_list (joysticks (config g))))"
  shows "states_proto (processJoysticks d g) = states_proto g"
  unfolding processJoysticks_fold
proof (rule fold_same_field)
  show "states_proto (stick_step d x h) = states_proto h"
    if "x \<in> set (field_list (joysticks (config g)))" for x h
    using stick_in_list_not_proto [OF assms that] by (rule stick_step_proto)
qed

lemma processButtons_proto: "states_proto (processButtons d g) = states_proto g"
  unfolding processButtons_fold by (rule fold_same_field) (rule button_step_proto)

lemma processStatus_proto: "states_proto (processStatus d g) = states_proto g"
  unfolding processStatus_fold by (rule fold_same_field) (rule status_step_proto)

subsection \<open>One field of a pass\<close>





lemma button_events_cases:
  "e \<in> set (button_events d x v) \<Longrightarrow>
   ev_name e = button_name x @ '':press'' \<or> ev_name e = button_name x @ '':release''"
  by (auto simp: button_events_def split: if_splits)




lemma status_events_named:
  "e \<in> set (status_events d x v) \<Longrightarrow>
   (ev_name e = status_name st @ '':change'') = (status_name x = status_name st)"
  by (auto simp: status_events_def split: if_splits)

lemma status_pass_named:
  assumes "distinct (map status_name (field_list (status (config g))))"
      and "st \<in> set (field_list (status (config g)))"
  shows "named (status_name st @ '':change'') (new_events g (processStatus d g)) =
         status_events d st (lookup g (status_name st))"
proof -
  have "new_events g (processStatus d g) = status_pass_events d g"
    using processStatus_emitted [OF assms(1)] by (rule new_events_append)
  moreover have "filter (\<lambda>e. ev_name e = status_name st @ '':change'')
      (concat (map (\<lambda>st. status_events d st (lookup g (status_name st))) (field_list (status (config g))))) =
      status_events d st (lookup g (status_name st))"
    using assms by (rule filter_concat_keyed) (rule status_events_named)
  ultimately show ?thesis by (simp add: named_def status_pass_events_def)
qed


subsection \<open>Reading the concrete frames\<close>


section \<open>Bytes and the status table\<close>

lemma and_0xFF_rd:
  "and_0xFF (rd d p) = (if 0 \<le> p \<and> p < int (length d) then uint (d ! nat p) else 0)"
proof -
  have "b AND 0xFF = b" for b :: byte
  proof -
    have "(0xFF :: byte) = - 1" by simp
    then show ?thesis by (simp only: and.right_neutral)
  qed
  then show ?thesis by (simp add: and_0xFF_def rd_def)
qed

lemma scan_states_find:
  "scan_states xs v =
     (case find (\<lambda>e. ss_value e = v) xs of None \<Rightarrow> JUndefined | Some e \<Rightarrow> JString (ss_state e))"
  by (induction xs) simp_all

lemma scan_states_undefined:
  "scan_states xs v = JUndefined \<longleftrightarrow> (\<forall>e\<in>set xs. ss_value e \<noteq> v)"
  by (induction xs) simp_all

lemma scan_states_first:
  assumes "i < length xs" and "ss_value (xs ! i) = v" and "\<forall>j<i. ss_value (xs ! j) \<noteq> v"
  shows "scan_states xs v = JString (ss_state (xs ! i))"
  using assms
proof (induction xs arbitrary: i)
  case Nil
  then show ?case by simp
next
  case (Cons a xs)
  show ?case
  proof (cases i)
    case 0
    with Cons.prems show ?thesis by simp
  next
    case (Suc k)
    from Cons.prems(3) Suc have "ss_value a \<noteq> v" by auto
    moreover have "scan_states xs v = JString (ss_state (xs ! k))"
    proof (rule Cons.IH)
      show "k < length xs" using Cons.prems(1) Suc by simp
      show "ss_value (xs ! k) = v" using Cons.prems(2) Suc by simp
      show "\<forall>j<k. ss_value (xs ! j) \<noteq> v"
      proof (intro allI impI)
        fix j assume "j < k"
        then have "Suc j < i" using Suc by simp
        with Cons.prems(3) have "ss_value ((a # xs) ! Suc j) \<noteq> v" by blast
        then show "ss_value (xs ! j) \<noteq> v" by simp
      qed
    qed
    ultimately show ?thesis using Suc by simp
  qed
qed

section \<open>Event names of different kinds never coincide\<close>

lemma move_not_change: "a @ '':move'' \<noteq> b @ '':change''"
proof
  assume "a @ '':move'' = b @ '':change''"
  then have "rev (a @ '':move'') = rev (b @ '':change'')" by simp
  then show False by simp
qed

lemma press_not_change: "a @ '':press'' \<noteq> b @ '':change''"
proof
  assume "a @ '':press'' = b @ '':change''"
  then have "rev (a @ '':press'') = rev (b @ '':change'')" by simp
  then show False by simp
qed

lemma release_not_change: "a @ '':release'' \<noteq> b @ '':change''"
proof
  assume "a @ '':release'' = b @ '':change''"
  then have "rev (a @ '':release'') = rev (b @ '':change'')" by simp
  then show False by simp
qed



lemma stick_events_name:
  "e \<in> set (stick_events d x v) \<Longrightarrow> ev_name e = stick_name x @ '':move''"
  by (auto simp: stick_events_def split: if_splits)


section \<open>The log only grows\<close>








lemma onControllerFrame_config: "config (onControllerFrame d g) = config g"
  by (simp add: onControllerFrame_def processStatus_config processButtons_config processJoysticks_config)

lemma run_frames_config: "config (run_frames ds g) = config g"
  unfolding run_frames_def by (rule fold_same_field) (rule onControllerFrame_config)


section \<open>One whole frame, when no two fields share a name\<close>

lemma field_names_distinct:
  assumes "distinct (field_names cfg)"
  shows "distinct (map stick_name (field_list (joysticks cfg)))"
    and "distinct (map button_name (field_list (buttons cfg)))"
    and "distinct (map status_name (field_list (status cfg)))"
    and "\<And>b. b \<in> set (field_list (buttons cfg)) \<Longrightarrow>
           button_name b \<notin> set (map stick_name (field_list (joysticks cfg)))"
    and "\<And>st. st \<in> set (field_list (status cfg)) \<Longrightarrow>
           status_name st \<notin> set (map stick_name (field_list (joysticks cfg)))"
    and "\<And>st. st \<in> set (field_list (status cfg)) \<Longrightarrow>
           status_name st \<notin> set (map button_name (field_list (buttons cfg)))"
    and "\<And>s. s \<in> set (field_list (joysticks cfg)) \<Longrightarrow>
           stick_name s \<notin> set (map button_name (field_list (buttons cfg)))"
    and "\<And>s. s \<in> set (field_list (joysticks cfg)) \<Longrightarrow>
           stick_name s \<notin> set (map status_name (field_list (status cfg)))"
    and "\<And>b. b \<in> set (field_list (buttons cfg)) \<Longrightarrow>
           button_name b \<notin> set (map status_name (field_list (status cfg)))"
  using assms by (auto simp: field_names_def)

lemma frame_emitted:
  assumes D: "distinct (field_names (config g))"
      and P: "''__proto__'' \<notin> set (map stick_name (field_list (joysticks (config g))))"
  shows "emitted (onControllerFrame d g) =
     emitted g @ stick_pass_events d g @ button_pass_events d g @ status_pass_events d g"
proof -
  let ?g1 = "processJoysticks d g"
  let ?g2 = "processButtons d ?g1"
  note N = field_names_distinct [OF D]
  have c1: "config ?g1 = config g" by (rule processJoysticks_config)
  have c2: "config ?g2 = config g" by (simp add: processButtons_config c1)
  have e1: "emitted ?g1 = emitted g @ stick_pass_events d g"
    by (rule processJoysticks_emitted) (rule N(1), rule P)
  have s1: "lookup ?g1 (button_name b) = lookup g (button_name b)"
    if "b \<in> set (field_list (buttons (config g)))" for b
    by (rule processJoysticks_frame) (rule P, rule N(4) [OF that])
  have "emitted ?g2 = emitted ?g1 @ button_pass_events d ?g1"
    by (rule processButtons_emitted) (simp add: c1 N(2))
  moreover have "button_pass_events d ?g1 = button_pass_events d g"
    unfolding button_pass_events_def c1
    by (rule arg_cong [where f = concat], rule map_cong) (simp_all add: s1)
  ultimately have e2: "emitted ?g2 = emitted ?g1 @ button_pass_events d g" by simp
  have s2: "lookup ?g2 (status_name st) = lookup g (status_name st)"
    if "st \<in> set (field_list (status (config g)))" for st
  proof -
    have "lookup ?g2 (status_name st) = lookup ?g1 (status_name st)"
      by (rule processButtons_frame) (simp only: c1 N(6) [OF that] not_False_eq_True)
    also have "\<dots> = lookup g (status_name st)"
      by (rule processJoysticks_frame) (rule P, rule N(5) [OF that])
    finally show ?thesis .
  qed
  have "emitted (processStatus d ?g2) = emitted ?g2 @ status_pass_events d ?g2"
    by (rule processStatus_emitted) (simp add: c2 N(3))
  moreover have "status_pass_events d ?g2 = status_pass_events d g"
    unfolding status_pass_events_def c2
    by (rule arg_cong [where f = concat], rule map_cong) (simp_all add: s2)
  ultimately have e3: "emitted (processStatus d ?g2) = emitted ?g2 @ status_pass_events d g" by simp
  show ?thesis by (simp add: onControllerFrame_def e1 e2 e3)
qed


section \<open>One field across a whole frame\<close>

lemma pass_events_eq:
  assumes "distinct (field_names (config g))"
      and "''__proto__'' \<notin> set (map stick_name (field_list (joysticks (config g))))"
  shows "new_events g (processJoysticks d g) = stick_pass_events d g"
    and "new_events g (processButtons d g) = button_pass_events d g"
    and "new_events g (processStatus d g) = status_pass_events d g"
    and "new_events g (onControllerFrame d g) =
           stick_pass_events d g @ button_pass_events d g @ status_pass_events d g"
  using field_names_distinct(1-3) [OF assms(1)] frame_emitted [OF assms, of d] assms(2)
  by (simp_all add: new_events_def processJoysticks_emitted processButtons_emitted
      processStatus_emitted)



lemma frame_status_named:
  assumes D: "distinct (field_names (config g))"
      and P: "''__proto__'' \<notin> set (map stick_name (field_list (joysticks (config g))))"
      and st: "st \<in> set (field_list (status (config g)))"
  shows "named (status_name st @ '':change'') (new_events g (onControllerFrame d g)) =
         status_events d st (lookup g (status_name st))"
proof -
  note N = field_names_distinct [OF D]
  have 1: "named (status_name st @ '':change'') (stick_pass_events d g) = []"
    unfolding named_def stick_pass_events_def
    by (rule filter_concat_none) (auto dest!: stick_events_name simp: move_not_change)
  have 2: "named (status_name st @ '':change'') (button_pass_events d g) = []"
    unfolding named_def button_pass_events_def
    by (rule filter_concat_none)
       (auto dest!: button_events_cases simp: press_not_change release_not_change)
  have 3: "named (status_name st @ '':change'') (status_pass_events d g) =
      status_events d st (lookup g (status_name st))"
    using status_pass_named [OF N(3) st, of d] pass_events_eq(3) [OF D P, of d] by simp
  show ?thesis
    using 1 2 3 by (simp add: pass_events_eq(4) [OF D P] named_def)
qed

section \<open>A button across a sequence of frames\<close>




section \<open>Edges of a sequence of pressed states\<close>




section \<open>A status that never matches\<close>


section \<open>Each category on its own\<close>




section \<open>Matching devices against configurations\<close>

lemma device_matches_iff:
  "device_matches cfg devices \<longleftrightarrow>
     (\<exists>dev\<in>set devices. vendorID cfg = vendorId dev \<and> productID cfg = productId dev)"
  by (induction devices) auto

lemma scan_files_None_iff:
  "scan_files t files devices = None \<longleftrightarrow> (\<forall>(file, cfg)\<in>set files. \<not> device_matches cfg devices)"
  by (induction t files devices rule: scan_files.induct) simp_all

section \<open>Own properties\<close>











section \<open>The concrete devices\<close>

lemma ex_and:
  "and_0xFF (rd (ex_frame a b c m) 4) = uint c"
  "and_0xFF (rd (ex_frame a b c m) 5) = uint m"
  "and_0xFF (rd (ex_frame a b c m) 6) = 0"
  by (simp_all add: and_0xFF_rd ex_frame_def)

lemma ex_fields:
  "field_list (joysticks (config ex_gamepad)) = [ex_left]"
  "field_list (buttons (config ex_gamepad)) = [ex_fire]"
  "field_list (status (config ex_gamepad)) = [ex_mode, ex_idle]"
  by (simp_all add: ex_gamepad_def ex_definition_def field_list_def)

lemma ex_names:
  "stick_name ex_left = ''left''" "button_name ex_fire = ''fire''"
  "status_name ex_mode = ''mode''" "status_name ex_idle = ''idle''"
  by (simp_all add: ex_left_def ex_fire_def ex_mode_def ex_idle_def)

lemma ex_distinct: "distinct (field_names (config ex_gamepad))"
  by (simp add: field_names_def ex_fields ex_names)

lemma ex_no_proto_stick:
  "''__proto__'' \<notin> set (map stick_name (field_list (joysticks (config ex_gamepad))))"
  by (simp add: ex_fields ex_names)

lemma ex_states: "states ex_gamepad = Map.empty" "states_proto ex_gamepad = ObjectPrototype"
  by (simp_all add: ex_gamepad_def)

lemma ex_not_inherited:
  "''left'' \<notin> set inherited_names" "''fire'' \<notin> set inherited_names"
  "''mode'' \<notin> set inherited_names" "''idle'' \<notin> set inherited_names"
  by (simp_all add: inherited_names_def object_prototype_functions_def)





section \<open>One stick of the stick pass\<close>





section \<open>Claims\<close>




text \<open>
  C2 (amended). Status sub-pass, first observation, for a configured status (status
  names distinct) with no own entry, the prototype of the state object untouched and a
  name that is not inherited from \<open>Object.prototype\<close>: the pass emits exactly one
  change event for it, carrying the resolved label, if some entry of its table has the
  value of the masked byte; if no entry matches, the resolved label is \<open>undefined\<close>,
  equal to what the read gave, and no change event is emitted.
\<close>

theorem status_first_observation:
  assumes "distinct (map status_name (field_list (status (config g))))"
      and "st \<in> set (field_list (status (config g)))"
      and "states g (status_name st) = None"
      and "states_proto g = ObjectPrototype"
      and "status_name st \<notin> set inherited_names"
  shows "named (status_name st @ '':change'') (new_events g (processStatus d g)) =
           (if \<exists>e\<in>set (status_states st). ss_value e = and_0xFF (rd d (status_pin st))
            then [Event (status_name st @ '':change'')
                    [scan_states (status_states st) (and_0xFF (rd d (status_pin st)))]]
            else [])"
  using status_pass_named [OF assms(1,2), of d] lookup_fresh [OF assms(3,4,5)]
    scan_states_undefined [of "status_states st" "and_0xFF (rd d (status_pin st))"]
  by (auto simp: status_events_def status_label_def)

theorem status_first_observation_witness:
  "distinct (map status_name (field_list (status (config ex_gamepad))))
   \<and> ex_mode \<in> set (field_list (status (config ex_gamepad)))
   \<and> states ex_gamepad ''mode'' = None
   \<and> states_proto ex_gamepad = ObjectPrototype
   \<and> ''mode'' \<notin> set inherited_names
   \<and> named ''mode:change'' (new_events ex_gamepad (processStatus (ex_frame 0 0 0 1) ex_gamepad))
        = [Event ''mode:change'' [JString ''on'']]
   \<and> named ''mode:change'' (new_events ex_gamepad (processStatus (ex_frame 0 0 0 7) ex_gamepad)) = []"
proof -
  have h: "distinct (map status_name (field_list (status (config ex_gamepad))))"
    "ex_mode \<in> set (field_list (status (config ex_gamepad)))"
    "states ex_gamepad (status_name ex_mode) = None"
    "states_proto ex_gamepad = ObjectPrototype"
    "status_name ex_mode \<notin> set inherited_names"
    by (simp_all add: ex_fields ex_states ex_names ex_not_inherited)
  have v: "status_pin ex_mode = 5"
    "status_states ex_mode = [\<lparr> ss_value = 0, ss_state = ''off'' \<rparr>,
       \<lparr> ss_value = 1, ss_state = ''on'' \<rparr>, \<lparr> ss_value = 1, ss_state = ''other'' \<rparr>]"
    by (simp_all add: ex_mode_def)
  from status_first_observation [OF h, of "ex_frame 0 0 0 1"]
    status_first_observation [OF h, of "ex_frame 0 0 0 7"] h
  show ?thesis by (simp add: ex_names v ex_and)
qed

text \<open>
  The claim as first stated, that the very first frame always emits a change event for
  every byte and every table, fails: status \<open>mode\<close> has a table without the value 7,
  and the first frame of a fresh decoder with byte 7 at its pin emits no change event.
\<close>

theorem status_first_frame_silent:
  "states ex_gamepad = Map.empty
   \<and> states_proto ex_gamepad = ObjectPrototype
   \<and> ex_mode \<in> set (field_list (status (config ex_gamepad)))
   \<and> status_states ex_mode \<noteq> []
   \<and> named ''mode:change'' (new_events ex_gamepad (onControllerFrame (ex_frame 0 0 0 7) ex_gamepad)) = []"
proof -
  have m: "ex_mode \<in> set (field_list (status (config ex_gamepad)))"
    by (simp add: ex_fields)
  have u: "lookup ex_gamepad (status_name ex_mode) = JUndefined"
    by (rule lookup_fresh) (simp_all add: ex_states ex_names ex_not_inherited)
  have "named (status_name ex_mode @ '':change'')
      (new_events ex_gamepad (onControllerFrame (ex_frame 0 0 0 7) ex_gamepad)) =
      status_events (ex_frame 0 0 0 7) ex_mode (lookup ex_gamepad (status_name ex_mode))"
    using ex_distinct ex_no_proto_stick m by (rule frame_status_named)
  also have "\<dots> = []"
    unfolding u by (simp add: status_events_def status_label_def ex_mode_def ex_and)
  finally show ?thesis using m by (simp add: ex_names ex_states ex_mode_def)
qed

text \<open>
  C3 (amended). Definition loading: the loaded definition's vendorID is the option's value
  when that was supplied and is not 0, and the stored one otherwise (not supplied, or 0,
  which the guard \<open>if (this._options.vendorID)\<close> treats as absent); independently the
  same for productID; the field lists are those of the stored definition.
\<close>

theorem loadConfiguration_overrides:
  assumes "ctl_files ctl t = Some stored"
  shows "\<exists>cfg. loadConfiguration ctl t opts = Inr cfg
       \<and> vendorID cfg =
           (case opt_vendorID opts of
              None \<Rightarrow> vendorID stored
            | Some v \<Rightarrow> if v = 0 then vendorID stored else v)
       \<and> productID cfg =
           (case opt_productID opts of
              None \<Rightarrow> productID stored
            | Some p \<Rightarrow> if p = 0 then productID stored else p)
       \<and> joysticks cfg = joysticks stored
       \<and> buttons cfg = buttons stored
       \<and> status cfg = status stored"
  using assms by (simp add: loadConfiguration_def Let_def split: option.split)

theorem loadConfiguration_overrides_witness:
  "ctl_files ex_controllers ''logitech/gamepadf310'' = Some ex_definition
   \<and> (\<exists>cfg. loadConfiguration ex_controllers ''logitech/gamepadf310''
          \<lparr> opt_vendorID = Some 1118, opt_productID = None \<rparr> = Inr cfg
        \<and> vendorID cfg = 1118 \<and> productID cfg = 49693
        \<and> joysticks cfg = Some [ex_left] \<and> buttons cfg = Some [ex_fire]
        \<and> status cfg = Some [ex_mode, ex_idle])"
proof -
  have h: "ctl_files ex_controllers ''logitech/gamepadf310'' = Some ex_definition"
    by (simp add: ex_controllers_def)
  from loadConfiguration_overrides [OF h, of "\<lparr> opt_vendorID = Some 1118, opt_productID = None \<rparr>"] h
  show ?thesis by (simp add: ex_definition_def)
qed

text \<open>
  The claim as first stated fails for a supplied 0: both overrides are explicitly given
  as 0, and the loaded definition keeps the stored identifiers.
\<close>

theorem zero_override_ignored:
  "loadConfiguration ex_controllers ''logitech/gamepadf310''
     \<lparr> opt_vendorID = Some 0, opt_productID = Some 0 \<rparr> = Inr ex_definition
   \<and> vendorID ex_definition = 1133 \<and> productID ex_definition = 49693"
  by (simp add: loadConfiguration_def ex_controllers_def ex_definition_def)







text \<open>
  C6. Status lookup: if entry \<open>i\<close> of the table has the value of the masked byte and no
  earlier entry has, the resolved label is that of entry \<open>i\<close>, whatever follows it in
  the table; the change event of the pass, emitted unless the read of the name already
  gave that label, carries it.
\<close>

theorem status_first_match_wins:
  assumes "distinct (map status_name (field_list (status (config g))))"
      and "st \<in> set (field_list (status (config g)))"
      and "i < length (status_states st)"
      and "ss_value (status_states st ! i) = and_0xFF (rd d (status_pin st))"
      and "\<forall>j<i. ss_value (status_states st ! j) \<noteq> and_0xFF (rd d (status_pin st))"
  shows "scan_states (status_states st) (and_0xFF (rd d (status_pin st))) =
           JString (ss_state (status_states st ! i))
       \<and> named (status_name st @ '':change'') (new_events g (processStatus d g)) =
           (if lookup g (status_name st) = JString (ss_state (status_states st ! i)) then []
            else [Event (status_name st @ '':change'') [JString (ss_state (status_states st ! i))]])"
proof -
  have l: "status_label d st = JString (ss_state (status_states st ! i))"
    unfolding status_label_def using assms(3-5) by (rule scan_states_first)
  then show ?thesis
    using status_pass_named [OF assms(1,2), of d]
    by (simp add: status_events_def status_label_def)
qed

theorem status_first_match_wins_witness:
  "distinct (map status_name (field_list (status (config ex_gamepad))))
   \<and> ex_mode \<in> set (field_list (status (config ex_gamepad)))
   \<and> ss_value (status_states ex_mode ! 0) \<noteq> 1
   \<and> ss_value (status_states ex_mode ! 1) = 1
   \<and> ss_value (status_states ex_mode ! 2) = 1
   \<and> and_0xFF (rd (ex_frame 0 0 0 1) (status_pin ex_mode)) = 1
   \<and> scan_states (status_states ex_mode) 1 = JString ''on''
   \<and> lookup ex_gamepad ''mode'' = JUndefined
   \<and> named ''mode:change'' (new_events ex_gamepad (processStatus (ex_frame 0 0 0 1) ex_gamepad))
        = [Event ''mode:change'' [JString ''on'']]"
proof -
  have v: "status_pin ex_mode = 5"
    "status_states ex_mode = [\<lparr> ss_value = 0, ss_state = ''off'' \<rparr>,
       \<lparr> ss_value = 1, ss_state = ''on'' \<rparr>, \<lparr> ss_value = 1, ss_state = ''other'' \<rparr>]"
    by (simp_all add: ex_mode_def)
  have h: "distinct (map status_name (field_list (status (config ex_gamepad))))"
    "ex_mode \<in> set (field_list (status (config ex_gamepad)))"
    "1 < length (status_states ex_mode)"
    "ss_value (status_states ex_mode ! 1) = and_0xFF (rd (ex_frame 0 0 0 1) (status_pin ex_mode))"
    "\<forall>j<1. ss_value (status_states ex_mode ! j) \<noteq> and_0xFF (rd (ex_frame 0 0 0 1) (status_pin ex_mode))"
    by (simp_all add: ex_fields ex_names v ex_and)
  have u: "lookup ex_gamepad ''mode'' = JUndefined"
    by (rule lookup_fresh) (simp_all add: ex_states ex_not_inherited)
  from status_first_match_wins [OF h] h(1,2) u
  show ?thesis by (simp add: ex_names v ex_and)
qed




text \<open>
  C8. Resolution errors. For an identifier without \<open>/\<close>: when the vendor directory
  does not exist, detection and \<open>connect\<close> fail with ConfigurationNotFound; when it
  exists and no attached device has both identifiers of any configuration in it,
  detection returns false and \<open>connect\<close> fails with DeviceNotDetected; when some
  configuration matches a device, neither error is raised. An identifier containing
  \<open>/\<close> is accepted by detection as it is, and \<open>connect\<close> raises neither error.
\<close>

theorem resolution_errors:
  "(\<not> hasProductId t \<and> ctl_dirs ctl t = None \<longrightarrow>
      detectControllerConfiguration ctl devices t = Inl ConfigurationNotFound \<and>
      connect ctl devices t opts = Inl ConfigurationNotFound)
   \<and> (\<forall>files. \<not> hasProductId t \<and> ctl_dirs ctl t = Some files \<and>
        (\<forall>(file, cfg)\<in>set files. \<forall>dev\<in>set devices.
            \<not> (vendorID cfg = vendorId dev \<and> productID cfg = productId dev)) \<longrightarrow>
      detectControllerConfiguration ctl devices t = Inr (False, t) \<and>
      connect ctl devices t opts = Inl DeviceNotDetected)
   \<and> (\<forall>files. \<not> hasProductId t \<and> ctl_dirs ctl t = Some files \<and>
        (\<exists>(file, cfg)\<in>set files. \<exists>dev\<in>set devices.
            vendorID cfg = vendorId dev \<and> productID cfg = productId dev) \<longrightarrow>
      connect ctl devices t opts \<noteq> Inl ConfigurationNotFound \<and>
      connect ctl devices t opts \<noteq> Inl DeviceNotDetected)
   \<and> (hasProductId t \<longrightarrow>
      detectControllerConfiguration ctl devices t = Inr (True, t) \<and>
      connect ctl devices t opts \<noteq> Inl ConfigurationNotFound \<and>
      connect ctl devices t opts \<noteq> Inl DeviceNotDetected)
   \<and> (hasProductId t \<longleftrightarrow> CHR ''/'' \<in> set t)"
proof -
  have load: "loadConfiguration ctl t' opts \<noteq> Inl ConfigurationNotFound"
    "loadConfiguration ctl t' opts \<noteq> Inl DeviceNotDetected" for t'
    by (simp_all add: loadConfiguration_def Let_def split: option.split)
  have 1: "\<not> hasProductId t \<and> ctl_dirs ctl t = None \<longrightarrow>
      detectControllerConfiguration ctl devices t = Inl ConfigurationNotFound \<and>
      connect ctl devices t opts = Inl ConfigurationNotFound"
    by (simp add: detectControllerConfiguration_def connect_def)
  have 2: "\<forall>files. \<not> hasProductId t \<and> ctl_dirs ctl t = Some files \<and>
        (\<forall>(file, cfg)\<in>set files. \<forall>dev\<in>set devices.
            \<not> (vendorID cfg = vendorId dev \<and> productID cfg = productId dev)) \<longrightarrow>
      detectControllerConfiguration ctl devices t = Inr (False, t) \<and>
      connect ctl devices t opts = Inl DeviceNotDetected"
  proof (intro allI impI)
    fix files
    assume a: "\<not> hasProductId t \<and> ctl_dirs ctl t = Some files \<and>
        (\<forall>(file, cfg)\<in>set files. \<forall>dev\<in>set devices.
            \<not> (vendorID cfg = vendorId dev \<and> productID cfg = productId dev))"
    then have "scan_files t files devices = None"
      unfolding scan_files_None_iff device_matches_iff by blast
    with a show "detectControllerConfiguration ctl devices t = Inr (False, t) \<and>
      connect ctl devices t opts = Inl DeviceNotDetected"
      by (simp add: detectControllerConfiguration_def connect_def)
  qed
  have 3: "\<forall>files. \<not> hasProductId t \<and> ctl_dirs ctl t = Some files \<and>
        (\<exists>(file, cfg)\<in>set files. \<exists>dev\<in>set devices.
            vendorID cfg = vendorId dev \<and> productID cfg = productId dev) \<longrightarrow>
      connect ctl devices t opts \<noteq> Inl ConfigurationNotFound \<and>
      connect ctl devices t opts \<noteq> Inl DeviceNotDetected"
  proof (intro allI impI)
    fix files
    assume a: "\<not> hasProductId t \<and> ctl_dirs ctl t = Some files \<and>
        (\<exists>(file, cfg)\<in>set files. \<exists>dev\<in>set devices.
            vendorID cfg = vendorId dev \<and> productID cfg = productId dev)"
    then have "scan_files t files devices \<noteq> None"
      unfolding scan_files_None_iff device_matches_iff by blast
    then obtain t' where "scan_files t files devices = Some t'" by blast
    with a have "connect ctl devices t opts =
        (case loadConfiguration ctl t' opts of Inl e \<Rightarrow> Inl e
         | Inr cfg \<Rightarrow> Inr \<lparr> usb = Some (vendorID cfg, productID cfg), gtype = t', config = cfg,
             states = Map.empty, states_proto = ObjectPrototype, options = opts,
             emitted = [Event ''connecting'' [], Event ''connected'' []] \<rparr>)"
      by (simp add: detectControllerConfiguration_def connect_def)
    then show "connect ctl devices t opts \<noteq> Inl ConfigurationNotFound \<and>
      connect ctl devices t opts \<noteq> Inl DeviceNotDetected"
      using load [of t'] by (auto split: sum.splits)
  qed
  have 4: "hasProductId t \<longrightarrow>
      detectControllerConfiguration ctl devices t = Inr (True, t) \<and>
      connect ctl devices t opts \<noteq> Inl ConfigurationNotFound \<and>
      connect ctl devices t opts \<noteq> Inl DeviceNotDetected"
    using load [of t]
    by (auto simp: detectControllerConfiguration_def connect_def split: sum.splits)
  have 5: "hasProductId t \<longleftrightarrow> CHR ''/'' \<in> set t"
    by (simp add: hasProductId_def)
  show ?thesis by (intro conjI) (rule 1 2 3 4 5)+
qed

theorem resolution_errors_witness:
  "\<not> hasProductId ''sony'' \<and> ctl_dirs ex_controllers ''sony'' = None
   \<and> connect ex_controllers [\<lparr> vendorId = 1133, productId = 49693 \<rparr>] ''sony''
        \<lparr> opt_vendorID = None, opt_productID = None \<rparr> = Inl ConfigurationNotFound
   \<and> \<not> hasProductId ''logitech''
   \<and> ctl_dirs ex_controllers ''logitech'' = Some [(''gamepadf310.json'', ex_definition)]
   \<and> connect ex_controllers [\<lparr> vendorId = 1133, productId = 1 \<rparr>] ''logitech''
        \<lparr> opt_vendorID = None, opt_productID = None \<rparr> = Inl DeviceNotDetected
   \<and> hasProductId ''logitech/missing''
   \<and> detectControllerConfiguration ex_controllers [] ''logitech/missing'' = Inr (True, ''logitech/missing'')
   \<and> connect ex_controllers [] ''logitech/missing''
        \<lparr> opt_vendorID = None, opt_productID = None \<rparr> \<noteq> Inl ConfigurationNotFound
   \<and> connect ex_controllers [] ''logitech/missing''
        \<lparr> opt_vendorID = None, opt_productID = None \<rparr> \<noteq> Inl DeviceNotDetected"
proof -
  let ?o = "\<lparr> opt_vendorID = None, opt_productID = None \<rparr>"
  have a: "\<not> hasProductId ''sony''" "ctl_dirs ex_controllers ''sony'' = None"
    by (simp_all add: hasProductId_def ex_controllers_def)
  have b: "\<not> hasProductId ''logitech''"
    "ctl_dirs ex_controllers ''logitech'' = Some [(''gamepadf310.json'', ex_definition)]"
    by (simp_all add: hasProductId_def ex_controllers_def)
  have c: "hasProductId ''logitech/missing''" by (simp add: hasProductId_def)
  from resolution_errors [of "''sony''" ex_controllers "[\<lparr> vendorId = 1133, productId = 49693 \<rparr>]" ?o] a
  have 1: "connect ex_controllers [\<lparr> vendorId = 1133, productId = 49693 \<rparr>] ''sony'' ?o = Inl ConfigurationNotFound"
    by blast
  have "\<forall>(file, cfg)\<in>set [(''gamepadf310.json'', ex_definition)].
      \<forall>dev\<in>set [\<lparr> vendorId = 1133, productId = 1 \<rparr>].
        \<not> (vendorID cfg = vendorId dev \<and> productID cfg = productId dev)"
    by (simp add: ex_definition_def)
  with resolution_errors [of "''logitech''" ex_controllers "[\<lparr> vendorId = 1133, productId = 1 \<rparr>]" ?o] b
  have 2: "connect ex_controllers [\<lparr> vendorId = 1133, productId = 1 \<rparr>] ''logitech'' ?o = Inl DeviceNotDetected"
    by blast
  from resolution_errors [of "''logitech/missing''" ex_controllers "[]" ?o] c
  have 3: "detectControllerConfiguration ex_controllers [] ''logitech/missing'' = Inr (True, ''logitech/missing'')"
    "connect ex_controllers [] ''logitech/missing'' ?o \<noteq> Inl ConfigurationNotFound"
    "connect ex_controllers [] ''logitech/missing'' ?o \<noteq> Inl DeviceNotDetected"
    by blast+
  from a b c 1 2 3 show ?thesis by blast
qed







end
